theory Spec2Isabelle
  imports Main
begin

section \<open>Go strings\<close>

text \<open>
  A Go string is a byte sequence holding UTF-8. The two handlers receive their strings
  from protobuf string fields, which hold valid UTF-8, so a string is modelled by the
  sequence of its code points (what \<^verbatim>\<open>for _, r := range s\<close> yields), and the
  built-in \<^verbatim>\<open>len\<close>, which counts bytes, adds up the encoded sizes of the code points.
\<close>

type_synonym rune = nat

type_synonym gostring = "rune list"

definition str :: "string \<Rightarrow> gostring" where
  \<comment> \<open>an ASCII literal of the source\<close>
  "str s = map of_char s"

definition RuneLen :: "rune \<Rightarrow> nat" where
  \<comment> \<open>utf8.RuneLen on valid code points\<close>
  "RuneLen r = (if r \<le> 0x7F then 1 else if r \<le> 0x7FF then 2 else if r \<le> 0xFFFF then 3 else 4)"

definition len :: "gostring \<Rightarrow> nat" where
  "len s = sum_list (map RuneLen s)"

subsection \<open>Package unicode\<close>

text \<open>
  \<^verbatim>\<open>unicode.IsSpace\<close> is a short list. \<^verbatim>\<open>unicode.IsLetter\<close> and
  \<^verbatim>\<open>unicode.IsNumber\<close> read the \<^verbatim>\<open>properties\<close> array up to U+00FF and the range
  tables \<^verbatim>\<open>Letter\<close> and \<^verbatim>\<open>Number\<close> above it; \<^verbatim>\<open>unicode.ToLower\<close> is
  arithmetic on ASCII and reads \<^verbatim>\<open>CaseRanges\<close> above it. The range tables belong to
  the Go distribution, not to this repository: they are a parameter of the model.
\<close>

record tables =
  Letter :: "rune \<Rightarrow> bool"
  Number :: "rune \<Rightarrow> bool"
  LowerCase :: "rune \<Rightarrow> rune"

definition IsSpace :: "rune \<Rightarrow> bool" where
  "IsSpace r =
     (if r \<le> 0xFF then r \<in> {0x09, 0x0A, 0x0B, 0x0C, 0x0D, 0x20, 0x85, 0xA0}
      else r = 0x1680 \<or> (0x2000 \<le> r \<and> r \<le> 0x200A) \<or> r = 0x2028 \<or> r = 0x2029
        \<or> r = 0x202F \<or> r = 0x205F \<or> r = 0x3000)"

definition IsLetter :: "tables \<Rightarrow> rune \<Rightarrow> bool" where
  "IsLetter T r =
     (if r \<le> 0xFF then
        (0x41 \<le> r \<and> r \<le> 0x5A) \<or> (0x61 \<le> r \<and> r \<le> 0x7A) \<or> r = 0xAA \<or> r = 0xB5
        \<or> r = 0xBA \<or> (0xC0 \<le> r \<and> r \<le> 0xD6) \<or> (0xD8 \<le> r \<and> r \<le> 0xF6) \<or> 0xF8 \<le> r
      else Letter T r)"

definition IsNumber :: "tables \<Rightarrow> rune \<Rightarrow> bool" where
  "IsNumber T r =
     (if r \<le> 0xFF then
        (0x30 \<le> r \<and> r \<le> 0x39) \<or> r = 0xB2 \<or> r = 0xB3 \<or> r = 0xB9 \<or> (0xBC \<le> r \<and> r \<le> 0xBE)
      else Number T r)"

definition unicode_ToLower :: "tables \<Rightarrow> rune \<Rightarrow> rune" where
  "unicode_ToLower T r =
     (if r \<le> 0x7F then (if 0x41 \<le> r \<and> r \<le> 0x5A then r + 0x20 else r)
      else LowerCase T r)"

definition latin1_tables :: tables where
  \<comment> \<open>the range tables cut off above U+00FF: enough to run the model on Latin-1 input\<close>
  "latin1_tables =
     \<lparr>Letter = (\<lambda>r. False), Number = (\<lambda>r. False),
      LowerCase = (\<lambda>r. if (0xC0 \<le> r \<and> r \<le> 0xD6) \<or> (0xD8 \<le> r \<and> r \<le> 0xDE) then r + 0x20
                      else r)\<rparr>"

subsection \<open>Package strings\<close>

definition TrimSpace :: "gostring \<Rightarrow> gostring" where
  \<comment> \<open>leading white space goes first, then trailing white space\<close>
  "TrimSpace s = rev (dropWhile IsSpace (rev (dropWhile IsSpace s)))"

definition ToLower :: "tables \<Rightarrow> gostring \<Rightarrow> gostring" where
  "ToLower T s = map (unicode_ToLower T) s"

definition HasPrefix :: "gostring \<Rightarrow> gostring \<Rightarrow> bool" where
  "HasPrefix s pre = (length pre \<le> length s \<and> take (length pre) s = pre)"

fun Contains :: "gostring \<Rightarrow> gostring \<Rightarrow> bool" where
  "Contains [] substr = (substr = [])"
| "Contains (r # s) substr = (HasPrefix (r # s) substr \<or> Contains s substr)"

definition ReplaceAll :: "gostring \<Rightarrow> rune \<Rightarrow> gostring \<Rightarrow> gostring" where
  \<comment> \<open>strings.ReplaceAll for an \<^verbatim>\<open>old\<close> of one character, as the source calls it\<close>
  "ReplaceAll s old new = concat (map (\<lambda>r. if r = old then new else [r]) s)"

section \<open>Validation and normalization (server/main.go)\<close>

definition normalizePhoneNumber :: "gostring \<Rightarrow> gostring" where
  \<comment> \<open>\<^verbatim>\<open>phone[1:]\<close> drops one byte, here the whole character "0"\<close>
  "normalizePhoneNumber phone0 =
     (let phone = TrimSpace phone0;
          phone = ReplaceAll phone 0x20 []
      in if HasPrefix phone (str ''0'') \<and> len phone = 10 then str ''254'' @ drop 1 phone
         else if HasPrefix phone (str ''7'') \<and> len phone = 9 then str ''254'' @ phone
         else phone)"

fun isAlphanumeric :: "tables \<Rightarrow> gostring \<Rightarrow> bool" where
  "isAlphanumeric T [] = True"
| "isAlphanumeric T (r # s) =
     (if \<not> IsLetter T r \<and> \<not> IsNumber T r then False else isAlphanumeric T s)"

datatype error = errors_New string

fun Error :: "error \<Rightarrow> string" where
  "Error (errors_New text) = text"

record RegisterMessageRequest =
  GetFullName :: gostring
  GetUserName :: gostring
  GetEmailAddress :: gostring
  GetPhoneNumber :: gostring
  GetPassword :: gostring

definition validateRegistration :: "tables \<Rightarrow> RegisterMessageRequest \<Rightarrow> error option" where
  \<comment> \<open>\<open>None\<close> is the \<^verbatim>\<open>nil\<close> error\<close>
  "validateRegistration T req =
     (if TrimSpace (GetFullName req) = [] then Some (errors_New ''full name is required'')
      else
        let username = TrimSpace (GetUserName req) in
        if len username < 4 then Some (errors_New ''username must be at least 4 characters'')
        else if \<not> isAlphanumeric T username
          then Some (errors_New ''username can only contain letters and numbers'')
        else
          let email = TrimSpace (GetEmailAddress req) in
          if \<not> Contains email (str ''@'') \<or> \<not> Contains email (str ''.'')
            then Some (errors_New ''invalid email format'')
          else
            let phone = normalizePhoneNumber (GetPhoneNumber req) in
            if len phone \<noteq> 12 \<or> \<not> HasPrefix phone (str ''254'')
              then Some (errors_New ''phone must be in 254XXXXXXXXX format (12 digits)'')
            else None)"

section \<open>The users collection\<close>

record User =
  FullName :: gostring
  UserName :: gostring
  EmailAddress :: gostring
  PhoneNumber :: gostring
  PasswordHash :: gostring
  CreatedAt :: nat
  UpdatedAt :: nat

definition bson :: "string \<Rightarrow> User \<Rightarrow> gostring option" where
  \<comment> \<open>the text fields of a stored document, by the struct tags\<close>
  "bson key u =
     (if key = ''full_name'' then Some (FullName u)
      else if key = ''user_name'' then Some (UserName u)
      else if key = ''email'' then Some (EmailAddress u)
      else if key = ''phone'' then Some (PhoneNumber u)
      else if key = ''password_hash'' then Some (PasswordHash u)
      else None)"

datatype filter = M string gostring | Or "filter list"

fun matches :: "filter \<Rightarrow> User \<Rightarrow> bool" where
  "matches (M key v) u = (bson key u = Some v)"
| "matches (Or fs) u = list_ex (\<lambda>f. matches f u) fs"

datatype call = FindOne_call filter | InsertOne_call User

text \<open>
  The collection holds its documents in insertion order, and \<open>calls\<close> lists the driver
  calls made on it, oldest first.
\<close>

record collection =
  documents :: "User list"
  calls :: "call list"

datatype mongo_error = ErrNoDocuments | DuplicateKey | OtherError

text \<open>
  What a call does not decide itself: whether a driver call fails for a reason outside the
  data (connection, timeout), which documents other clients insert between the probe and
  the insert of one registration, and the two readings of the clock.
\<close>

record env =
  find_fails :: bool
  concurrent :: "User list"
  insert_fails :: bool
  now_created :: nat
  now_updated :: nat

definition FindOne :: "env \<Rightarrow> collection \<Rightarrow> filter \<Rightarrow> (mongo_error + User) \<times> collection" where
  "FindOne e c f =
     ((if find_fails e then Inl OtherError
       else case find (matches f) (documents c) of
              None \<Rightarrow> Inl ErrNoDocuments
            | Some u \<Rightarrow> Inr u),
      c\<lparr>calls := calls c @ [FindOne_call f]\<rparr>)"

definition unique_violation :: "User \<Rightarrow> User \<Rightarrow> bool" where
  \<comment> \<open>the three unique indexes created by \<^verbatim>\<open>NewUserService\<close>\<close>
  "unique_violation u d =
     (EmailAddress d = EmailAddress u \<or> UserName d = UserName u \<or> PhoneNumber d = PhoneNumber u)"

definition InsertOne :: "env \<Rightarrow> collection \<Rightarrow> User \<Rightarrow> (mongo_error + unit) \<times> collection" where
  "InsertOne e c u =
     (let c' = c\<lparr>calls := calls c @ [InsertOne_call u]\<rparr> in
      if insert_fails e then (Inl OtherError, c')
      else if list_ex (unique_violation u) (documents c) then (Inl DuplicateKey, c')
      else (Inr (), c'\<lparr>documents := documents c @ [u]\<rparr>))"

definition IsDuplicateKeyError :: "mongo_error \<Rightarrow> bool" where
  "IsDuplicateKeyError err = (err = DuplicateKey)"

definition others :: "env \<Rightarrow> collection \<Rightarrow> collection" where
  \<comment> \<open>the inserts of other clients that land between the probe and the insert\<close>
  "others e c = c\<lparr>documents := documents c @ concurrent e\<rparr>"

section \<open>The handlers (server/main.go)\<close>

text \<open>
  A handler takes the collection and returns its answer, a status or a response, with the
  collection as the call leaves it. The lines written to the log are not modelled.
\<close>

datatype codes = InvalidArgument | AlreadyExists | NotFound | Internal

datatype status = status_Error codes string

record LoginMessageRequest =
  GetEmail :: gostring

record LoginMessageResponse =
  login_Email :: gostring
  login_UserName :: gostring
  login_Password :: gostring

record RegisterMessageResponse =
  reg_UserName :: gostring
  reg_Message :: gostring
  reg_Success :: bool

definition LoginUser ::
  "tables \<Rightarrow> env \<Rightarrow> collection \<Rightarrow> LoginMessageRequest
     \<Rightarrow> (status + LoginMessageResponse) \<times> collection" where
  "LoginUser T e c req =
     (let (r, c) = FindOne e c (M ''email'' (ToLower T (GetEmail req))) in
      case r of
        Inl err \<Rightarrow>
          if err = ErrNoDocuments then (Inl (status_Error NotFound ''Invalid credentials''), c)
          else (Inl (status_Error Internal ''login failed''), c)
      | Inr user \<Rightarrow>
          (Inr \<lparr>login_Email = EmailAddress user, login_UserName = UserName user,
                login_Password = PasswordHash user\<rparr>, c))"

definition existingFilter :: "tables \<Rightarrow> RegisterMessageRequest \<Rightarrow> filter" where
  "existingFilter T req =
     Or [M ''email'' (ToLower T (TrimSpace (GetEmailAddress req))),
         M ''user_name'' (ToLower T (TrimSpace (GetUserName req))),
         M ''phone'' (normalizePhoneNumber (GetPhoneNumber req))]"

definition newUser :: "tables \<Rightarrow> env \<Rightarrow> RegisterMessageRequest \<Rightarrow> User" where
  "newUser T e req =
     \<lparr>FullName = TrimSpace (GetFullName req),
      UserName = ToLower T (TrimSpace (GetUserName req)),
      EmailAddress = ToLower T (TrimSpace (GetEmailAddress req)),
      PhoneNumber = normalizePhoneNumber (GetPhoneNumber req),
      PasswordHash = GetPassword req,
      CreatedAt = now_created e,
      UpdatedAt = now_updated e\<rparr>"

definition RegisterUser ::
  "tables \<Rightarrow> env \<Rightarrow> collection \<Rightarrow> RegisterMessageRequest
     \<Rightarrow> (status + RegisterMessageResponse) \<times> collection" where
  "RegisterUser T e c req =
     (case validateRegistration T req of
        Some err \<Rightarrow> (Inl (status_Error InvalidArgument (Error err)), c)
      | None \<Rightarrow>
          let (r, c) = FindOne e c (existingFilter T req) in
          case r of
            Inr existingUser \<Rightarrow>
              (Inl (status_Error AlreadyExists
                 ''user with this email, username or phone already exists''), c)
          | Inl err \<Rightarrow>
              if err \<noteq> ErrNoDocuments
                then (Inl (status_Error Internal ''internal server error''), c)
              else
                let user = newUser T e req;
                    (r, c) = InsertOne e (others e c) user in
                case r of
                  Inl err \<Rightarrow>
                    if IsDuplicateKeyError err
                      then (Inl (status_Error AlreadyExists
                              ''user with these details already exists''), c)
                    else (Inl (status_Error Internal ''failed to create user''), c)
                | Inr _ \<Rightarrow>
                    (Inr \<lparr>reg_UserName = UserName user,
                          reg_Message = str ''Registered successfully'',
                          reg_Success = True\<rparr>, c))"

section \<open>The rules in the words of the specification\<close>





text \<open>
  Validation as the specification words it: five rules, tried in order, the first failure
  reported.
\<close>

definition rule_full_name :: "RegisterMessageRequest \<Rightarrow> error option" where
  "rule_full_name req =
     (if TrimSpace (GetFullName req) = [] then Some (errors_New ''full name is required'')
      else None)"

definition rule_username_length :: "RegisterMessageRequest \<Rightarrow> error option" where
  "rule_username_length req =
     (if len (TrimSpace (GetUserName req)) < 4
        then Some (errors_New ''username must be at least 4 characters'')
      else None)"

definition rule_username_characters :: "tables \<Rightarrow> RegisterMessageRequest \<Rightarrow> error option" where
  "rule_username_characters T req =
     (if list_all (\<lambda>r. IsLetter T r \<or> IsNumber T r) (TrimSpace (GetUserName req)) then None
      else Some (errors_New ''username can only contain letters and numbers''))"

definition rule_email :: "RegisterMessageRequest \<Rightarrow> error option" where
  "rule_email req =
     (if Contains (TrimSpace (GetEmailAddress req)) (str ''@'')
         \<and> Contains (TrimSpace (GetEmailAddress req)) (str ''.'') then None
      else Some (errors_New ''invalid email format''))"

definition rule_phone :: "RegisterMessageRequest \<Rightarrow> error option" where
  "rule_phone req =
     (if len (normalizePhoneNumber (GetPhoneNumber req)) = 12
         \<and> HasPrefix (normalizePhoneNumber (GetPhoneNumber req)) (str ''254'') then None
      else Some (errors_New ''phone must be in 254XXXXXXXXX format (12 digits)''))"

fun first_failure :: "error option list \<Rightarrow> error option" where
  "first_failure [] = None"
| "first_failure (None # rs) = first_failure rs"
| "first_failure (Some err # rs) = Some err"

definition rules_in_order :: "tables \<Rightarrow> RegisterMessageRequest \<Rightarrow> error option list" where
  "rules_in_order T req =
     [rule_full_name req, rule_username_length req, rule_username_characters T req,
      rule_email req, rule_phone req]"

text \<open>
  A string is cleaned when trimming it and stripping its spaces change nothing.
\<close>

definition cleaned :: "gostring \<Rightarrow> bool" where
  "cleaned q = (TrimSpace q = q \<and> filter (\<lambda>r. r \<noteq> 0x20) q = q)"

section \<open>Example data\<close>

text \<open>
  A run in which both driver calls are answered and no other client writes; the
  registration of the end-to-end example, the document it leaves, and a second
  registration with the same email but another username and phone.
\<close>

definition steady :: env where
  "steady = \<lparr>find_fails = False, concurrent = [], insert_fails = False,
             now_created = 0, now_updated = 0\<rparr>"

definition jane :: RegisterMessageRequest where
  "jane = \<lparr>GetFullName = str ''Jane Doe'', GetUserName = str ''JaneD1'',
           GetEmailAddress = str ''Jane@Example.com'', GetPhoneNumber = str ''0712345678'',
           GetPassword = str ''x''\<rparr>"

definition jane_stored :: "nat \<Rightarrow> nat \<Rightarrow> User" where
  "jane_stored created updated =
     \<lparr>FullName = str ''Jane Doe'', UserName = str ''janed1'',
      EmailAddress = str ''jane@example.com'', PhoneNumber = str ''254712345678'',
      PasswordHash = str ''x'', CreatedAt = created, UpdatedAt = updated\<rparr>"

definition second_jane :: RegisterMessageRequest where
  "second_jane = jane\<lparr>GetUserName := str ''janet'', GetPhoneNumber := str ''0799999999''\<rparr>"

section \<open>Facts about the string functions\<close>

lemma dropWhile_fixed: "xs = [] \<or> \<not> P (hd xs) \<Longrightarrow> dropWhile P xs = xs"
  by (cases xs) auto


lemma ReplaceAll_filter: "ReplaceAll s old [] = filter (\<lambda>r. r \<noteq> old) s"
  by (induction s) (auto simp: ReplaceAll_def)

lemma HasPrefix_single: "HasPrefix s [r] = (case s of [] \<Rightarrow> False | x # _ \<Rightarrow> x = r)"
  by (cases s) (auto simp: HasPrefix_def)



lemma str_single: "str [c] = [of_char c]"
  by (simp add: str_def)

section \<open>Phone normalization\<close>



section \<open>Normalization is idempotent\<close>

lemma last_dropWhile: "dropWhile P xs \<noteq> [] \<Longrightarrow> last (dropWhile P xs) = last xs"
proof -
  assume a: "dropWhile P xs \<noteq> []"
  have "last (takeWhile P xs @ dropWhile P xs) = last (dropWhile P xs)"
    using a by (rule last_appendR)
  then show ?thesis by simp
qed

lemma TrimSpace_fixed:
  assumes "s = [] \<or> (\<not> IsSpace (hd s) \<and> \<not> IsSpace (last s))"
  shows "TrimSpace s = s"
proof (cases "s = []")
  case True
  then show ?thesis by (simp add: TrimSpace_def)
next
  case False
  with assms have h: "\<not> IsSpace (hd s)" and l: "\<not> IsSpace (last s)" by auto
  have a: "dropWhile IsSpace s = s" using h by (simp add: dropWhile_fixed)
  have "hd (rev s) = last s" using False by (simp add: hd_rev)
  with l have "dropWhile IsSpace (rev s) = rev s" by (simp add: dropWhile_fixed)
  with a show ?thesis by (simp add: TrimSpace_def)
qed

lemma TrimSpace_ends:
  "TrimSpace s = [] \<or> (\<not> IsSpace (hd (TrimSpace s)) \<and> \<not> IsSpace (last (TrimSpace s)))"
proof (cases "TrimSpace s = []")
  case True
  then show ?thesis by simp
next
  case False
  define d where "d = dropWhile IsSpace s"
  define b where "b = dropWhile IsSpace (rev d)"
  have t: "TrimSpace s = rev b" by (simp add: TrimSpace_def b_def d_def)
  with False have bne: "b \<noteq> []" by simp
  then have dne: "d \<noteq> []" by (auto simp: b_def)
  have "\<not> IsSpace (hd b)" using bne unfolding b_def by (rule hd_dropWhile)
  then have l: "\<not> IsSpace (last (TrimSpace s))" using bne by (simp add: t last_rev)
  have "last b = last (rev d)" using bne unfolding b_def by (rule last_dropWhile)
  then have "last b = hd d" using dne by (simp add: last_rev)
  moreover have "\<not> IsSpace (hd d)" using dne unfolding d_def by (rule hd_dropWhile)
  ultimately have "\<not> IsSpace (hd (TrimSpace s))" using bne by (simp add: t hd_rev)
  with l show ?thesis by simp
qed

lemma TrimSpace_idem: "TrimSpace (TrimSpace s) = TrimSpace s"
  using TrimSpace_ends [of s] by (rule TrimSpace_fixed)

lemma last_filter: "s \<noteq> [] \<Longrightarrow> P (last s) \<Longrightarrow> last (filter P s) = last s"
proof (induction s)
  case Nil
  then show ?case by simp
next
  case (Cons a s)
  show ?case
  proof (cases "s = []")
    case True
    with Cons.prems show ?thesis by simp
  next
    case False
    with Cons have ih: "last (filter P s) = last s" and pl: "P (last s)" by simp_all
    from False pl have "filter P s \<noteq> []"
      by (simp only: filter_empty_conv) (use last_in_set in blast)
    with ih False show ?thesis by simp
  qed
qed

lemma filter_ends:
  assumes "s \<noteq> []" "P (hd s)" "P (last s)"
  shows "filter P s \<noteq> [] \<and> hd (filter P s) = hd s \<and> last (filter P s) = last s"
proof -
  obtain a s' where s: "s = a # s'" using assms(1) by (cases s) auto
  have h: "filter P s \<noteq> [] \<and> hd (filter P s) = hd s" using assms(2) by (simp add: s)
  with last_filter [of s P] assms(1,3) show ?thesis by simp
qed

lemma IsSpace_space: "\<not> IsSpace r \<Longrightarrow> r \<noteq> 0x20"
  by (auto simp: IsSpace_def)

lemma cleaned_strip_trim: "cleaned (filter (\<lambda>r. r \<noteq> 0x20) (TrimSpace p))"
proof (cases "TrimSpace p = []")
  case True
  have "TrimSpace [] = []" by (simp add: TrimSpace_def)
  with True show ?thesis by (simp add: cleaned_def)
next
  case False
  let ?t = "TrimSpace p"
  let ?q = "filter (\<lambda>r. r \<noteq> 0x20) ?t"
  from False TrimSpace_ends [of p] have e: "\<not> IsSpace (hd ?t)" "\<not> IsSpace (last ?t)" by auto
  then have "hd ?t \<noteq> 0x20" "last ?t \<noteq> 0x20" by (auto dest: IsSpace_space)
  with False have "?q \<noteq> [] \<and> hd ?q = hd ?t \<and> last ?q = last ?t"
    using filter_ends [of ?t "\<lambda>r. r \<noteq> 0x20"] by simp
  with e have "TrimSpace ?q = ?q" by (intro TrimSpace_fixed) simp
  then show ?thesis by (simp add: cleaned_def)
qed

lemma cleaned_ends: "cleaned q \<Longrightarrow> q \<noteq> [] \<Longrightarrow> \<not> IsSpace (last q)"
  using TrimSpace_ends [of q] by (auto simp: cleaned_def)

lemma cleaned_254:
  assumes "cleaned q" "t \<noteq> []" "set t \<subseteq> set q" "last t = last q"
  shows "cleaned (str ''254'' @ t)"
proof -
  have qne: "q \<noteq> []" using assms(2,3) by auto
  have "\<forall>r\<in>set q. r \<noteq> 0x20" using assms(1) by (simp add: cleaned_def filter_id_conv)
  then have f: "filter (\<lambda>r. r \<noteq> 0x20) t = t" using assms(3) by (auto simp: filter_id_conv)
  have "\<not> IsSpace (last t)" using cleaned_ends [OF assms(1) qne] assms(4) by simp
  then have "\<not> IsSpace (last (str ''254'' @ t))" using assms(2) by simp
  moreover have "\<not> IsSpace (hd (str ''254'' @ t))" by (simp add: str_def IsSpace_def)
  ultimately have "TrimSpace (str ''254'' @ t) = str ''254'' @ t" by (intro TrimSpace_fixed) simp
  with f show ?thesis by (simp add: cleaned_def) (simp add: str_def)
qed

lemma normalize_cleaned:
  "cleaned q \<Longrightarrow> \<not> (HasPrefix q (str ''0'') \<and> len q = 10)
   \<Longrightarrow> \<not> (HasPrefix q (str ''7'') \<and> len q = 9) \<Longrightarrow> normalizePhoneNumber q = q"
  by (auto simp: normalizePhoneNumber_def cleaned_def ReplaceAll_filter Let_def)

lemma not_prefix_254: "\<not> HasPrefix (str ''254'' @ t) (str ''0'')" "\<not> HasPrefix (str ''254'' @ t) (str ''7'')"
  by (simp_all add: HasPrefix_def str_def)

lemma len_pos: "len t \<noteq> 0 \<Longrightarrow> t \<noteq> []"
  by (auto simp: len_def)

lemma len_drop1: "HasPrefix q (str ''0'') \<Longrightarrow> len q = 10 \<Longrightarrow> len (drop 1 q) = 9"
proof -
  assume h: "HasPrefix q (str ''0'')" and l: "len q = 10"
  from h obtain t where q: "q = 0x30 # t"
    by (cases q) (simp_all add: str_single HasPrefix_single)
  have "len q = 1 + len t" by (simp add: q len_def RuneLen_def)
  with l show ?thesis by (simp add: q)
qed

lemma normalizePhoneNumber_idem:
  "normalizePhoneNumber (normalizePhoneNumber p) = normalizePhoneNumber p"
proof -
  define q where "q = filter (\<lambda>r. r \<noteq> 0x20) (TrimSpace p)"
  have c: "cleaned q" unfolding q_def by (rule cleaned_strip_trim)
  have n: "normalizePhoneNumber p =
      (if HasPrefix q (str ''0'') \<and> len q = 10 then str ''254'' @ drop 1 q
       else if HasPrefix q (str ''7'') \<and> len q = 9 then str ''254'' @ q else q)"
    by (simp add: normalizePhoneNumber_def q_def ReplaceAll_filter Let_def)
  consider (zero) "HasPrefix q (str ''0'') \<and> len q = 10"
    | (seven) "\<not> (HasPrefix q (str ''0'') \<and> len q = 10)" "HasPrefix q (str ''7'') \<and> len q = 9"
    | (other) "\<not> (HasPrefix q (str ''0'') \<and> len q = 10)" "\<not> (HasPrefix q (str ''7'') \<and> len q = 9)"
    by blast
  then show ?thesis
  proof cases
    case zero
    then have "len (drop 1 q) = 9" using len_drop1 by blast
    then have ne: "drop 1 q \<noteq> []" by (intro len_pos) simp
    then have "last (drop 1 q) = last q" by simp
    with c ne have "cleaned (str ''254'' @ drop 1 q)"
      by (intro cleaned_254 [of q]) (auto dest: in_set_dropD)
    then have "normalizePhoneNumber (str ''254'' @ drop 1 q) = str ''254'' @ drop 1 q"
      by (intro normalize_cleaned) (simp_all add: not_prefix_254)
    moreover have "normalizePhoneNumber p = str ''254'' @ drop 1 q"
      unfolding n using zero by (simp only: if_True simp_thms)
    ultimately show ?thesis by (simp only:)
  next
    case seven
    then have ne: "q \<noteq> []" by (intro len_pos) simp
    with c have "cleaned (str ''254'' @ q)" by (intro cleaned_254 [of q]) auto
    then have "normalizePhoneNumber (str ''254'' @ q) = str ''254'' @ q"
      by (intro normalize_cleaned) (simp_all add: not_prefix_254)
    moreover have "normalizePhoneNumber p = str ''254'' @ q"
      unfolding n using seven by (simp only: if_True if_False simp_thms)
    ultimately show ?thesis by (simp only:)
  next
    case other
    with c have "normalizePhoneNumber q = q" by (intro normalize_cleaned) 
    moreover have "normalizePhoneNumber p = q"
      unfolding n using other by (simp only: if_False simp_thms)
    ultimately show ?thesis by (simp only:)
  qed
qed

lemma hd_last_map: "s \<noteq> [] \<Longrightarrow> hd (map f s) = f (hd s) \<and> last (map f s) = f (last s)"
  by (simp add: hd_map last_map)

lemma trim_lower_idem:
  assumes idem: "\<forall>r. unicode_ToLower T (unicode_ToLower T r) = unicode_ToLower T r"
    and keep: "\<forall>r. \<not> IsSpace r \<longrightarrow> \<not> IsSpace (unicode_ToLower T r)"
  shows "ToLower T (TrimSpace (ToLower T (TrimSpace s))) = ToLower T (TrimSpace s)"
proof -
  let ?t = "TrimSpace s"
  have "TrimSpace (ToLower T ?t) = ToLower T ?t"
  proof (cases "?t = []")
    case True
    have "TrimSpace [] = []" by (simp add: TrimSpace_def)
    with True show ?thesis by (simp add: ToLower_def)
  next
    case False
    with TrimSpace_ends [of s] have "\<not> IsSpace (hd ?t)" "\<not> IsSpace (last ?t)" by auto
    with keep have "\<not> IsSpace (unicode_ToLower T (hd ?t))" "\<not> IsSpace (unicode_ToLower T (last ?t))"
      by auto
    with False have "\<not> IsSpace (hd (ToLower T ?t)) \<and> \<not> IsSpace (last (ToLower T ?t))"
      by (simp add: ToLower_def hd_last_map)
    then show ?thesis by (intro TrimSpace_fixed) simp
  qed
  moreover have "ToLower T (ToLower T ?t) = ToLower T ?t"
    using idem by (simp add: ToLower_def)
  ultimately show ?thesis by simp
qed

lemma unicode_ToLower_ascii:
  "r \<le> 0x7F \<Longrightarrow> unicode_ToLower T (unicode_ToLower T r) = unicode_ToLower T r"
  "r \<le> 0x7F \<Longrightarrow> \<not> IsSpace r \<Longrightarrow> \<not> IsSpace (unicode_ToLower T r)"
  by (auto simp: unicode_ToLower_def IsSpace_def)

lemma latin1_tables_case:
  "\<forall>r. 0x7F < r \<longrightarrow> unicode_ToLower latin1_tables (LowerCase latin1_tables r) = LowerCase latin1_tables r"
  "\<forall>r. 0x7F < r \<and> \<not> IsSpace r \<longrightarrow> \<not> IsSpace (LowerCase latin1_tables r)"
  by (auto simp: latin1_tables_def unicode_ToLower_def IsSpace_def)

text \<open>
  C6. Normalizing twice is normalizing once: for every input, \<open>normalizePhoneNumber\<close>
  applied to its own output returns that output, and so does trimming and lower-casing (the
  normalization of username and email). The second part is read off the case table of the
  Go distribution, of which two facts are used: above ASCII a lower-cased character is
  left alone by lower-casing, and the lower case of a character that is not white space is
  not white space.
\<close>

theorem normalization_idempotent:
  assumes "\<forall>r. 0x7F < r \<longrightarrow> unicode_ToLower T (LowerCase T r) = LowerCase T r"
    and "\<forall>r. 0x7F < r \<and> \<not> IsSpace r \<longrightarrow> \<not> IsSpace (LowerCase T r)"
  shows "normalizePhoneNumber (normalizePhoneNumber p) = normalizePhoneNumber p
       \<and> ToLower T (TrimSpace (ToLower T (TrimSpace s))) = ToLower T (TrimSpace s)"
proof -
  have idem: "\<forall>r. unicode_ToLower T (unicode_ToLower T r) = unicode_ToLower T r"
  proof
    fix r show "unicode_ToLower T (unicode_ToLower T r) = unicode_ToLower T r"
    proof (cases "r \<le> 0x7F")
      case True
      then show ?thesis by (rule unicode_ToLower_ascii)
    next
      case False
      then have "unicode_ToLower T r = LowerCase T r" by (simp add: unicode_ToLower_def)
      with False assms(1) show ?thesis by simp
    qed
  qed
  have keep: "\<forall>r. \<not> IsSpace r \<longrightarrow> \<not> IsSpace (unicode_ToLower T r)"
  proof (intro allI impI)
    fix r assume n: "\<not> IsSpace r"
    show "\<not> IsSpace (unicode_ToLower T r)"
    proof (cases "r \<le> 0x7F")
      case True
      then show ?thesis using n by (rule unicode_ToLower_ascii)
    next
      case False
      then have "unicode_ToLower T r = LowerCase T r" by (simp add: unicode_ToLower_def)
      with False assms(2) n show ?thesis by simp
    qed
  qed
  from trim_lower_idem [OF idem keep] normalizePhoneNumber_idem show ?thesis by simp
qed

theorem normalization_idempotent_witness:
  "normalizePhoneNumber (normalizePhoneNumber (str '' 0712 345 678 '')) = str ''254712345678''
   \<and> ToLower latin1_tables (TrimSpace (ToLower latin1_tables (TrimSpace
         (str ''  '' @ [0xC9] @ str ''cole@Example.FR ''))))
     = [0xE9] @ str ''cole@example.fr''"
proof -
  have a: "normalizePhoneNumber (str '' 0712 345 678 '') = str ''254712345678''" by code_simp
  have b: "ToLower latin1_tables (TrimSpace (str ''  '' @ [0xC9] @ str ''cole@Example.FR ''))
           = [0xE9] @ str ''cole@example.fr''" by code_simp
  from normalization_idempotent [OF latin1_tables_case,
      of "str '' 0712 345 678 ''" "str ''  '' @ [0xC9] @ str ''cole@Example.FR ''"]
  show ?thesis by (simp only: a b)
qed

section \<open>Validation\<close>

lemma isAlphanumeric_all: "isAlphanumeric T s = list_all (\<lambda>r. IsLetter T r \<or> IsNumber T r) s"
  by (induction s) auto

lemma validateRegistration_rules: "validateRegistration T req = first_failure (rules_in_order T req)"
  by (simp add: validateRegistration_def rules_in_order_def rule_full_name_def
      rule_username_length_def rule_username_characters_def rule_email_def rule_phone_def
      isAlphanumeric_all Let_def)

text \<open>
  C5. Validation tries its rules in the fixed order full name, username length, username
  characters, email, phone, and returns the first violated one. In particular a request
  whose full name is empty after trimming and whose username is too short is answered with
  the full-name failure.
\<close>

theorem validation_order:
  "validateRegistration T req = first_failure (rules_in_order T req)
   \<and> (TrimSpace (GetFullName req) = [] \<and> len (TrimSpace (GetUserName req)) < 4
        \<longrightarrow> validateRegistration T req = Some (errors_New ''full name is required''))"
proof -
  have "validateRegistration T req = first_failure (rules_in_order T req)"
    by (rule validateRegistration_rules)
  moreover have "TrimSpace (GetFullName req) = [] \<and> len (TrimSpace (GetUserName req)) < 4
        \<longrightarrow> validateRegistration T req = Some (errors_New ''full name is required'')"
    by (simp add: validateRegistration_def)
  ultimately show ?thesis by blast
qed

theorem validation_order_witness:
  "validateRegistration latin1_tables
     \<lparr>GetFullName = str ''   '', GetUserName = str ''ab'', GetEmailAddress = str ''nobody'',
      GetPhoneNumber = str ''12345'', GetPassword = str ''x''\<rparr>
   = Some (errors_New ''full name is required'')"
proof -
  let ?req = "\<lparr>GetFullName = str ''   '', GetUserName = str ''ab'',
      GetEmailAddress = str ''nobody'', GetPhoneNumber = str ''12345'', GetPassword = str ''x''\<rparr>"
  have "TrimSpace (GetFullName ?req) = []" by code_simp
  moreover have "len (TrimSpace (GetUserName ?req)) < 4" by code_simp
  ultimately show ?thesis using validation_order [of latin1_tables ?req] by blast
qed

section \<open>The store and the example data\<close>

lemma matches_email: "matches (M ''email'' v) u = (EmailAddress u = v)"
  by (simp add: bson_def)

lemma matches_existingFilter:
  "matches (existingFilter T req) u =
     (EmailAddress u = ToLower T (TrimSpace (GetEmailAddress req))
      \<or> UserName u = ToLower T (TrimSpace (GetUserName req))
      \<or> PhoneNumber u = normalizePhoneNumber (GetPhoneNumber req))"
  by (simp add: existingFilter_def bson_def)

lemma find_None: "(find P xs = None) = (\<forall>x\<in>set xs. \<not> P x)"
  by (auto simp: find_None_iff)

lemma find_Some_in: "find P xs = Some x \<Longrightarrow> x \<in> set xs \<and> P x"
  by (auto simp: find_Some_iff)

lemma find_exists: "\<exists>x\<in>set xs. P x \<Longrightarrow> \<exists>x. find P xs = Some x \<and> x \<in> set xs \<and> P x"
  by (cases "find P xs") (auto simp: find_None dest: find_Some_in)

lemma snd_FindOne: "snd (FindOne e c f) = c\<lparr>calls := calls c @ [FindOne_call f]\<rparr>"
  by (simp add: FindOne_def)

lemma LoginUser_store:
  "snd (LoginUser T e c req) = c\<lparr>calls := calls c @ [FindOne_call (M ''email'' (ToLower T (GetEmail req)))]\<rparr>"
  by (simp add: LoginUser_def FindOne_def split: sum.splits option.splits)

lemma LoginUser_fails:
  "find_fails e \<Longrightarrow> fst (LoginUser T e c req) = Inl (status_Error Internal ''login failed'')"
  by (simp add: LoginUser_def FindOne_def)

lemma LoginUser_miss:
  "\<not> find_fails e \<Longrightarrow> \<forall>u\<in>set (documents c). EmailAddress u \<noteq> ToLower T (GetEmail req)
   \<Longrightarrow> fst (LoginUser T e c req) = Inl (status_Error NotFound ''Invalid credentials'')"
proof -
  assume a: "\<not> find_fails e" and b: "\<forall>u\<in>set (documents c). EmailAddress u \<noteq> ToLower T (GetEmail req)"
  from b have "find (matches (M ''email'' (ToLower T (GetEmail req)))) (documents c) = None"
    by (simp only: find_None matches_email) 
  with a show ?thesis by (simp add: LoginUser_def FindOne_def)
qed

lemma LoginUser_hit:
  "\<not> find_fails e \<Longrightarrow> find (matches (M ''email'' (ToLower T (GetEmail req)))) (documents c) = Some u
   \<Longrightarrow> fst (LoginUser T e c req) =
       Inr \<lparr>login_Email = EmailAddress u, login_UserName = UserName u,
            login_Password = PasswordHash u\<rparr>"
  by (simp add: LoginUser_def FindOne_def)

lemma RegisterUser_probe_hit:
  "validateRegistration T req = None \<Longrightarrow> fst (FindOne e c (existingFilter T req)) = Inr u
   \<Longrightarrow> RegisterUser T e c req
       = (Inl (status_Error AlreadyExists
                 ''user with this email, username or phone already exists''),
          c\<lparr>calls := calls c @ [FindOne_call (existingFilter T req)]\<rparr>)"
  by (cases "FindOne e c (existingFilter T req)")
     (use snd_FindOne [of e c "existingFilter T req"] in \<open>simp add: RegisterUser_def\<close>)

lemma FindOne_hit:
  "\<not> find_fails e \<Longrightarrow> \<exists>u\<in>set (documents c). matches f u
   \<Longrightarrow> \<exists>u. fst (FindOne e c f) = Inr u \<and> u \<in> set (documents c) \<and> matches f u"
  using find_exists [of "documents c" "matches f"] by (auto simp: FindOne_def)

lemma RegisterUser_insert_duplicate:
  "validateRegistration T req = None
   \<Longrightarrow> fst (FindOne e c (existingFilter T req)) = Inl ErrNoDocuments
   \<Longrightarrow> fst (InsertOne e (others e (snd (FindOne e c (existingFilter T req)))) (newUser T e req))
         = Inl DuplicateKey
   \<Longrightarrow> fst (RegisterUser T e c req)
       = Inl (status_Error AlreadyExists ''user with these details already exists'')"
  by (cases "FindOne e c (existingFilter T req)";
      cases "InsertOne e (others e (snd (FindOne e c (existingFilter T req)))) (newUser T e req)")
     (simp add: RegisterUser_def IsDuplicateKeyError_def)

lemma jane_trim:
  "TrimSpace (str ''Jane Doe'') = str ''Jane Doe''"
  "TrimSpace (str ''JaneD1'') = str ''JaneD1''"
  "TrimSpace (str ''Jane@Example.com'') = str ''Jane@Example.com''"
  by code_simp+

lemma jane_lower:
  "ToLower T (str ''JaneD1'') = str ''janed1''"
  "ToLower T (str ''Jane@Example.com'') = str ''jane@example.com''"
  by (simp_all add: ToLower_def str_def unicode_ToLower_def)

lemma jane_phone: "normalizePhoneNumber (str ''0712345678'') = str ''254712345678''"
  by code_simp

lemma jane_checks:
  "str ''Jane Doe'' \<noteq> []"
  "\<not> len (str ''JaneD1'') < 4"
  "isAlphanumeric T (str ''JaneD1'')"
  "Contains (str ''Jane@Example.com'') (str ''@'')"
  "Contains (str ''Jane@Example.com'') (str ''.'')"
  "len (str ''254712345678'') = 12"
  "HasPrefix (str ''254712345678'') (str ''254'')"
  by (simp_all add: str_def len_def RuneLen_def IsLetter_def IsNumber_def HasPrefix_def)

lemma jane_valid: "validateRegistration T jane = None"
  by (simp add: validateRegistration_def jane_def jane_trim jane_phone jane_checks)

lemma jane_newUser: "newUser T e jane = jane_stored (now_created e) (now_updated e)"
  by (simp add: newUser_def jane_def jane_stored_def jane_trim jane_lower jane_phone)

lemma jane_filter:
  "existingFilter T jane = Or [M ''email'' (str ''jane@example.com''),
     M ''user_name'' (str ''janed1''), M ''phone'' (str ''254712345678'')]"
  by (simp add: existingFilter_def jane_def jane_trim jane_lower jane_phone)

lemma RegisterUser_success:
  assumes v: "validateRegistration T req = None"
    and f: "\<not> find_fails e" and i: "\<not> insert_fails e"
    and n: "\<forall>d\<in>set (documents c @ concurrent e). \<not> unique_violation (newUser T e req) d"
  shows "RegisterUser T e c req
         = (Inr \<lparr>reg_UserName = UserName (newUser T e req),
                 reg_Message = str ''Registered successfully'', reg_Success = True\<rparr>,
            \<lparr>documents = documents c @ concurrent e @ [newUser T e req],
             calls = calls c @ [FindOne_call (existingFilter T req),
                                InsertOne_call (newUser T e req)]\<rparr>)"
proof -
  have m: "\<forall>d\<in>set (documents c). \<not> matches (existingFilter T req) d"
    using n by (auto simp: matches_existingFilter unique_violation_def newUser_def)
  then have "find (matches (existingFilter T req)) (documents c) = None"
    by (simp only: find_None)
  with f have p: "FindOne e c (existingFilter T req)
      = (Inl ErrNoDocuments, c\<lparr>calls := calls c @ [FindOne_call (existingFilter T req)]\<rparr>)"
    by (simp add: FindOne_def)
  have "\<not> list_ex (unique_violation (newUser T e req)) (documents c @ concurrent e)"
    using n by (simp only: list_ex_iff) blast
  with i have q: "InsertOne e (others e (c\<lparr>calls := calls c @ [FindOne_call (existingFilter T req)]\<rparr>))
        (newUser T e req)
      = (Inr (), \<lparr>documents = documents c @ concurrent e @ [newUser T e req],
             calls = calls c @ [FindOne_call (existingFilter T req),
                                InsertOne_call (newUser T e req)]\<rparr>)"
    by (simp add: InsertOne_def others_def Let_def)
  show ?thesis by (simp add: RegisterUser_def v p q Let_def)
qed

section \<open>LoginUser\<close>

text \<open>
  C10. \<open>LoginUser\<close> validates nothing. Whatever the email string, the empty one
  included, its only driver call is one lookup of the lower-cased value, the documents are
  left as they were, no outcome is an invalid-argument status, and the outcome is the
  not-found status, the internal status, or the data of a stored account with that email.
\<close>

theorem LoginUser_outcomes:
  "snd (LoginUser T e c req)
     = c\<lparr>calls := calls c @ [FindOne_call (M ''email'' (ToLower T (GetEmail req)))]\<rparr>
   \<and> documents (snd (LoginUser T e c req)) = documents c
   \<and> (\<forall>msg. fst (LoginUser T e c req) \<noteq> Inl (status_Error InvalidArgument msg))
   \<and> (fst (LoginUser T e c req) = Inl (status_Error NotFound ''Invalid credentials'')
      \<or> fst (LoginUser T e c req) = Inl (status_Error Internal ''login failed'')
      \<or> (\<exists>u\<in>set (documents c). EmailAddress u = ToLower T (GetEmail req)
            \<and> fst (LoginUser T e c req) =
                Inr \<lparr>login_Email = EmailAddress u, login_UserName = UserName u,
                     login_Password = PasswordHash u\<rparr>))
   \<and> calls (snd (LoginUser T e c \<lparr>GetEmail = []\<rparr>)) = calls c @ [FindOne_call (M ''email'' [])]"
proof -
  let ?k = "ToLower T (GetEmail req)"
  have three: "fst (LoginUser T e c req) = Inl (status_Error NotFound ''Invalid credentials'')
      \<or> fst (LoginUser T e c req) = Inl (status_Error Internal ''login failed'')
      \<or> (\<exists>u\<in>set (documents c). EmailAddress u = ?k
            \<and> fst (LoginUser T e c req) =
                Inr \<lparr>login_Email = EmailAddress u, login_UserName = UserName u,
                     login_Password = PasswordHash u\<rparr>)"
  proof (cases "find_fails e")
    case True
    then show ?thesis by (simp add: LoginUser_fails)
  next
    case False
    show ?thesis
    proof (cases "find (matches (M ''email'' ?k)) (documents c)")
      case None
      then have "\<forall>u\<in>set (documents c). EmailAddress u \<noteq> ?k"
        by (simp only: find_None matches_email)
      with False show ?thesis by (simp add: LoginUser_miss)
    next
      case (Some u)
      then have "u \<in> set (documents c) \<and> EmailAddress u = ?k"
        using find_Some_in [of "matches (M ''email'' ?k)" "documents c" u]
        by (simp only: matches_email)
      with LoginUser_hit [OF False Some] show ?thesis by blast
    qed
  qed
  then have "\<forall>msg. fst (LoginUser T e c req) \<noteq> Inl (status_Error InvalidArgument msg)"
    by auto
  moreover have "calls (snd (LoginUser T e c \<lparr>GetEmail = []\<rparr>)) = calls c @ [FindOne_call (M ''email'' [])]"
    by (simp add: LoginUser_store ToLower_def)
  ultimately show ?thesis using three by (simp add: LoginUser_store)
qed

theorem LoginUser_outcomes_witness:
  "fst (LoginUser latin1_tables
     \<lparr>find_fails = False, concurrent = [], insert_fails = False, now_created = 1, now_updated = 2\<rparr>
     \<lparr>documents = [], calls = []\<rparr> \<lparr>GetEmail = str ''nobody''\<rparr>)
   = Inl (status_Error NotFound ''Invalid credentials'')"
  using LoginUser_outcomes [of latin1_tables
     "\<lparr>find_fails = False, concurrent = [], insert_fails = False, now_created = 1, now_updated = 2\<rparr>"
     "\<lparr>documents = [], calls = []\<rparr>" "\<lparr>GetEmail = str ''nobody''\<rparr>"]
  by (simp add: LoginUser_fails LoginUser_def FindOne_def)

text \<open>
  C7. When the lookup is answered by the store: if no stored account has the lower-cased
  request email, \<open>LoginUser\<close> ends with the not-found status and the message
  "Invalid credentials"; if one has, it succeeds and returns the stored email, username and
  password hash of such an account, unchanged. (A lookup that fails for another reason
  ends with the internal status, see \<open>LoginUser_fails\<close>.)
\<close>

theorem LoginUser_lookup:
  assumes "\<not> find_fails e"
  shows "((\<forall>u\<in>set (documents c). EmailAddress u \<noteq> ToLower T (GetEmail req))
            \<longrightarrow> fst (LoginUser T e c req) = Inl (status_Error NotFound ''Invalid credentials''))
       \<and> ((\<exists>u\<in>set (documents c). EmailAddress u = ToLower T (GetEmail req))
            \<longrightarrow> (\<exists>u\<in>set (documents c). EmailAddress u = ToLower T (GetEmail req)
                  \<and> fst (LoginUser T e c req) =
                      Inr \<lparr>login_Email = EmailAddress u, login_UserName = UserName u,
                           login_Password = PasswordHash u\<rparr>))"
proof (intro conjI impI)
  assume "\<forall>u\<in>set (documents c). EmailAddress u \<noteq> ToLower T (GetEmail req)"
  with assms show "fst (LoginUser T e c req) = Inl (status_Error NotFound ''Invalid credentials'')"
    by (rule LoginUser_miss)
next
  let ?k = "ToLower T (GetEmail req)"
  assume "\<exists>u\<in>set (documents c). EmailAddress u = ?k"
  then have "\<exists>u\<in>set (documents c). matches (M ''email'' ?k) u"
    by (simp only: matches_email)
  from find_exists [OF this] obtain u where
    u: "find (matches (M ''email'' ?k)) (documents c) = Some u" "u \<in> set (documents c)"
       "matches (M ''email'' ?k) u" by blast
  from u(3) have "EmailAddress u = ?k" by (simp only: matches_email)
  with u(2) LoginUser_hit [OF assms u(1)]
  show "\<exists>u\<in>set (documents c). EmailAddress u = ?k
          \<and> fst (LoginUser T e c req) =
              Inr \<lparr>login_Email = EmailAddress u, login_UserName = UserName u,
                   login_Password = PasswordHash u\<rparr>" by blast
qed

theorem LoginUser_lookup_witness:
  "fst (LoginUser latin1_tables
     \<lparr>find_fails = False, concurrent = [], insert_fails = False, now_created = 1, now_updated = 2\<rparr>
     \<lparr>documents = [\<lparr>FullName = str ''Jane Doe'', UserName = str ''janed1'',
         EmailAddress = str ''jane@example.com'', PhoneNumber = str ''254712345678'',
         PasswordHash = str ''x'', CreatedAt = 1, UpdatedAt = 2\<rparr>], calls = []\<rparr>
     \<lparr>GetEmail = str ''Jane@Example.com''\<rparr>)
   = Inr \<lparr>login_Email = str ''jane@example.com'', login_UserName = str ''janed1'',
          login_Password = str ''x''\<rparr>
   \<and> fst (LoginUser latin1_tables
     \<lparr>find_fails = False, concurrent = [], insert_fails = False, now_created = 1, now_updated = 2\<rparr>
     \<lparr>documents = [\<lparr>FullName = str ''Jane Doe'', UserName = str ''janed1'',
         EmailAddress = str ''jane@example.com'', PhoneNumber = str ''254712345678'',
         PasswordHash = str ''x'', CreatedAt = 1, UpdatedAt = 2\<rparr>], calls = []\<rparr>
     \<lparr>GetEmail = str ''joe@example.com''\<rparr>)
   = Inl (status_Error NotFound ''Invalid credentials'')"
proof -
  let ?e = "\<lparr>find_fails = False, concurrent = [], insert_fails = False, now_created = 1, now_updated = 2\<rparr>"
  let ?d = "\<lparr>FullName = str ''Jane Doe'', UserName = str ''janed1'',
         EmailAddress = str ''jane@example.com'', PhoneNumber = str ''254712345678'',
         PasswordHash = str ''x'', CreatedAt = 1, UpdatedAt = 2\<rparr>"
  let ?c = "\<lparr>documents = [?d], calls = []\<rparr>"
  have e: "\<not> find_fails ?e" by simp
  have k1: "ToLower latin1_tables (str ''Jane@Example.com'') = str ''jane@example.com''" by code_simp
  have k2: "ToLower latin1_tables (str ''joe@example.com'') \<noteq> str ''jane@example.com''" by code_simp
  from LoginUser_lookup [OF e, of ?c latin1_tables "\<lparr>GetEmail = str ''Jane@Example.com''\<rparr>"]
       LoginUser_lookup [OF e, of ?c latin1_tables "\<lparr>GetEmail = str ''joe@example.com''\<rparr>"]
  show ?thesis using k1 k2 by simp
qed

section \<open>RegisterUser\<close>

text \<open>
  C8. A request that fails validation ends \<open>RegisterUser\<close> with the invalid-argument
  status whose message is the text of the first violated rule, and the collection is
  returned as it was: no document added and no driver call made, neither probe nor insert.
\<close>

theorem RegisterUser_invalid:
  assumes "validateRegistration T req = Some err"
  shows "RegisterUser T e c req = (Inl (status_Error InvalidArgument (Error err)), c)
         \<and> first_failure (rules_in_order T req) = Some err"
  using assms by (simp add: RegisterUser_def validateRegistration_rules)

theorem RegisterUser_invalid_witness:
  "RegisterUser latin1_tables
     \<lparr>find_fails = False, concurrent = [], insert_fails = False, now_created = 1, now_updated = 2\<rparr>
     \<lparr>documents = [], calls = []\<rparr>
     \<lparr>GetFullName = str ''Jane Doe'', GetUserName = str ''ab1'',
      GetEmailAddress = str ''Jane@Example.com'', GetPhoneNumber = str ''0712345678'',
      GetPassword = str ''x''\<rparr>
   = (Inl (status_Error InvalidArgument ''username must be at least 4 characters''),
      \<lparr>documents = [], calls = []\<rparr>)"
proof -
  let ?req = "\<lparr>GetFullName = str ''Jane Doe'', GetUserName = str ''ab1'',
      GetEmailAddress = str ''Jane@Example.com'', GetPhoneNumber = str ''0712345678'',
      GetPassword = str ''x''\<rparr>"
  have "validateRegistration latin1_tables ?req
        = Some (errors_New ''username must be at least 4 characters'')" by code_simp
  from RegisterUser_invalid [OF this] show ?thesis by simp
qed

text \<open>
  C1. For a request that passes validation: if the store answers the probe and holds an
  account whose email, username or phone equals the normalized value of the request (any
  one of the three), \<open>RegisterUser\<close> ends with the already-exists status and the message
  "user with this email, username or phone already exists", the documents are unchanged and
  the probe is the only driver call, so nothing is inserted. If the probe misses and the
  insert reports a duplicate key, \<open>RegisterUser\<close> ends with the already-exists status
  too.
\<close>

theorem RegisterUser_conflict:
  assumes "validateRegistration T req = None"
  shows "(\<not> find_fails e \<and> u \<in> set (documents c)
          \<and> (EmailAddress u = ToLower T (TrimSpace (GetEmailAddress req))
             \<or> UserName u = ToLower T (TrimSpace (GetUserName req))
             \<or> PhoneNumber u = normalizePhoneNumber (GetPhoneNumber req))
          \<longrightarrow> RegisterUser T e c req
              = (Inl (status_Error AlreadyExists
                        ''user with this email, username or phone already exists''),
                 c\<lparr>calls := calls c @ [FindOne_call (existingFilter T req)]\<rparr>))
       \<and> (fst (FindOne e c (existingFilter T req)) = Inl ErrNoDocuments
          \<and> fst (InsertOne e (others e (snd (FindOne e c (existingFilter T req))))
                   (newUser T e req)) = Inl DuplicateKey
          \<longrightarrow> fst (RegisterUser T e c req)
              = Inl (status_Error AlreadyExists ''user with these details already exists''))"
proof (intro conjI impI)
  assume h: "\<not> find_fails e \<and> u \<in> set (documents c)
          \<and> (EmailAddress u = ToLower T (TrimSpace (GetEmailAddress req))
             \<or> UserName u = ToLower T (TrimSpace (GetUserName req))
             \<or> PhoneNumber u = normalizePhoneNumber (GetPhoneNumber req))"
  then have "\<exists>u\<in>set (documents c). matches (existingFilter T req) u"
    by (auto simp only: matches_existingFilter)
  with h obtain v where "fst (FindOne e c (existingFilter T req)) = Inr v"
    using FindOne_hit [of e c "existingFilter T req"] by blast
  with assms show "RegisterUser T e c req
              = (Inl (status_Error AlreadyExists
                        ''user with this email, username or phone already exists''),
                 c\<lparr>calls := calls c @ [FindOne_call (existingFilter T req)]\<rparr>)"
    by (rule RegisterUser_probe_hit)
next
  assume "fst (FindOne e c (existingFilter T req)) = Inl ErrNoDocuments
          \<and> fst (InsertOne e (others e (snd (FindOne e c (existingFilter T req))))
                   (newUser T e req)) = Inl DuplicateKey"
  with assms show "fst (RegisterUser T e c req)
              = Inl (status_Error AlreadyExists ''user with these details already exists'')"
    by (simp add: RegisterUser_insert_duplicate)
qed

theorem RegisterUser_conflict_witness:
  "RegisterUser latin1_tables steady \<lparr>documents = [jane_stored 0 0], calls = []\<rparr> second_jane
   = (Inl (status_Error AlreadyExists
             ''user with this email, username or phone already exists''),
      \<lparr>documents = [jane_stored 0 0],
       calls = [FindOne_call (existingFilter latin1_tables second_jane)]\<rparr>)
   \<and> fst (RegisterUser latin1_tables (steady\<lparr>concurrent := [jane_stored 0 0]\<rparr>)
            \<lparr>documents = [], calls = []\<rparr> second_jane)
   = Inl (status_Error AlreadyExists ''user with these details already exists'')"
proof -
  let ?c = "\<lparr>documents = [jane_stored 0 0], calls = []\<rparr>"
  let ?nothing = "\<lparr>documents = [], calls = []\<rparr>"
  let ?e = "steady\<lparr>concurrent := [jane_stored 0 0]\<rparr>"
  have v: "validateRegistration latin1_tables second_jane = None" by code_simp
  have a1: "\<not> find_fails steady" by (simp add: steady_def)
  have a2: "EmailAddress (jane_stored 0 0)
            = ToLower latin1_tables (TrimSpace (GetEmailAddress second_jane))" by code_simp
  have b1: "fst (FindOne ?e ?nothing (existingFilter latin1_tables second_jane)) = Inl ErrNoDocuments"
    by code_simp
  have b2: "fst (InsertOne ?e (others ?e (snd (FindOne ?e ?nothing
              (existingFilter latin1_tables second_jane)))) (newUser latin1_tables ?e second_jane))
            = Inl DuplicateKey" by code_simp
  from RegisterUser_conflict [OF v, where e = steady and u = "jane_stored 0 0" and c = ?c] a1 a2
  have "RegisterUser latin1_tables steady ?c second_jane
   = (Inl (status_Error AlreadyExists
             ''user with this email, username or phone already exists''),
      ?c\<lparr>calls := calls ?c @ [FindOne_call (existingFilter latin1_tables second_jane)]\<rparr>)"
    by simp
  moreover from RegisterUser_conflict [OF v, where e = ?e and c = ?nothing] b1 b2
  have "fst (RegisterUser latin1_tables ?e ?nothing second_jane)
   = Inl (status_Error AlreadyExists ''user with these details already exists'')"
    by blast
  ultimately show ?thesis by simp
qed

text \<open>
  C9. In a run where the store answers both calls and no account, stored or inserted by
  another client before the insert, has the email "jane@example.com", the username
  "janed1" or the phone "254712345678", registering Jane Doe / "JaneD1" /
  "Jane@Example.com" / "0712345678" / "x" succeeds: the document with username "janed1",
  email "jane@example.com" and phone "254712345678" is appended, and the response carries
  success and the stored username "janed1".
\<close>

theorem RegisterUser_jane:
  assumes "\<not> find_fails e" and "\<not> insert_fails e"
    and "\<forall>d\<in>set (documents c @ concurrent e).
           EmailAddress d \<noteq> str ''jane@example.com'' \<and> UserName d \<noteq> str ''janed1''
           \<and> PhoneNumber d \<noteq> str ''254712345678''"
  shows "RegisterUser T e c jane
         = (Inr \<lparr>reg_UserName = str ''janed1'', reg_Message = str ''Registered successfully'',
                 reg_Success = True\<rparr>,
            \<lparr>documents = documents c @ concurrent e
                 @ [jane_stored (now_created e) (now_updated e)],
             calls = calls c @ [FindOne_call (existingFilter T jane),
                        InsertOne_call (jane_stored (now_created e) (now_updated e))]\<rparr>)"
proof -
  have "\<forall>d\<in>set (documents c @ concurrent e). \<not> unique_violation (newUser T e jane) d"
    using assms(3) by (simp add: jane_newUser unique_violation_def jane_stored_def)
  from RegisterUser_success [OF jane_valid assms(1,2) this]
  show ?thesis by (simp add: jane_newUser) (simp add: jane_stored_def)
qed

theorem RegisterUser_jane_witness:
  "RegisterUser latin1_tables steady \<lparr>documents = [], calls = []\<rparr> jane
   = (Inr \<lparr>reg_UserName = str ''janed1'', reg_Message = str ''Registered successfully'',
           reg_Success = True\<rparr>,
      \<lparr>documents = [jane_stored 0 0],
       calls = [FindOne_call (existingFilter latin1_tables jane),
                InsertOne_call (jane_stored 0 0)]\<rparr>)"
  using RegisterUser_jane [of steady "\<lparr>documents = [], calls = []\<rparr>" latin1_tables]
  by (simp add: steady_def)

section \<open>Where the code leaves its own rules\<close>

text \<open>
  What the two rules do enforce: the username rule compares the byte length with 4 and
  then asks every character to be a letter or a number; a persisted phone has byte length
  12 and the prefix "254".
\<close>

lemma username_length_rule:
  assumes "TrimSpace (GetFullName req) \<noteq> []"
  shows "(validateRegistration T req = Some (errors_New ''username must be at least 4 characters''))
         = (len (TrimSpace (GetUserName req)) < 4)"
  using assms by (simp add: validateRegistration_def Let_def)

lemma username_character_rule:
  assumes "TrimSpace (GetFullName req) \<noteq> []" and "\<not> len (TrimSpace (GetUserName req)) < 4"
  shows "(validateRegistration T req
            = Some (errors_New ''username can only contain letters and numbers''))
         = (\<exists>r\<in>set (TrimSpace (GetUserName req)). \<not> IsLetter T r \<and> \<not> IsNumber T r)"
  using assms by (auto simp: validateRegistration_def Let_def isAlphanumeric_all list_all_iff)

lemma username_examples:
  "validateRegistration T (jane\<lparr>GetUserName := str ''ab1''\<rparr>)
     = Some (errors_New ''username must be at least 4 characters'')"
  "validateRegistration T (jane\<lparr>GetUserName := str ''abc1''\<rparr>) = None"
  "validateRegistration T (jane\<lparr>GetUserName := str ''abc-1''\<rparr>)
     = Some (errors_New ''username can only contain letters and numbers'')"
proof -
  have t: "TrimSpace (str ''ab1'') = str ''ab1''" "TrimSpace (str ''abc1'') = str ''abc1''"
    "TrimSpace (str ''abc-1'') = str ''abc-1''" by code_simp+
  have l: "len (str ''ab1'') < 4" "\<not> len (str ''abc1'') < 4" "\<not> len (str ''abc-1'') < 4"
    by (simp_all add: str_def len_def RuneLen_def)
  have a: "isAlphanumeric T (str ''abc1'')" "\<not> isAlphanumeric T (str ''abc-1'')"
    by (simp_all add: str_def IsLetter_def IsNumber_def)
  show "validateRegistration T (jane\<lparr>GetUserName := str ''ab1''\<rparr>)
     = Some (errors_New ''username must be at least 4 characters'')"
    by (simp add: validateRegistration_def jane_def jane_trim jane_checks t l)
  show "validateRegistration T (jane\<lparr>GetUserName := str ''abc1''\<rparr>) = None"
    by (simp add: validateRegistration_def jane_def jane_trim jane_checks jane_phone t l a)
  show "validateRegistration T (jane\<lparr>GetUserName := str ''abc-1''\<rparr>)
     = Some (errors_New ''username can only contain letters and numbers'')"
    by (simp add: validateRegistration_def jane_def jane_trim jane_checks t l a)
qed

lemma validateRegistration_phone:
  "validateRegistration T req = None
   \<Longrightarrow> len (normalizePhoneNumber (GetPhoneNumber req)) = 12
       \<and> HasPrefix (normalizePhoneNumber (GetPhoneNumber req)) (str ''254'')"
  by (simp add: validateRegistration_def Let_def split: if_splits)

lemma RegisterUser_persists:
  assumes "RegisterUser T e c req = (Inr resp, c')"
  shows "documents c' = documents c @ concurrent e @ [newUser T e req]
         \<and> len (PhoneNumber (newUser T e req)) = 12
         \<and> HasPrefix (PhoneNumber (newUser T e req)) (str ''254'')"
proof -
  from assms have v: "validateRegistration T req = None"
    by (cases "validateRegistration T req") (simp_all add: RegisterUser_def)
  have "documents c' = documents c @ concurrent e @ [newUser T e req]"
    using assms v
    by (simp add: RegisterUser_def FindOne_def InsertOne_def others_def Let_def
        split: if_splits option.splits)
       (auto simp: IsDuplicateKeyError_def)
  with validateRegistration_phone [OF v] show ?thesis by (simp add: newUser_def)
qed

text \<open>
  C2. The username made of the letter U+00E9 twice has two characters and four bytes. The
  length rule compares \<^verbatim>\<open>len(username)\<close>, a byte count, with 4, so this username
  is not rejected as too short, although the message of the rule speaks of characters: the
  request passes validation.
\<close>

theorem username_length_counts_bytes:
  "length (TrimSpace [0xE9, 0xE9]) = 2
   \<and> validateRegistration T (jane\<lparr>GetUserName := [0xE9, 0xE9]\<rparr>) = None"
proof -
  have t: "TrimSpace [0xE9, 0xE9] = [0xE9, 0xE9]" by code_simp
  have l: "\<not> len [0xE9, 0xE9] < 4" by (simp add: len_def RuneLen_def)
  have a: "isAlphanumeric T [0xE9, 0xE9]" by (simp add: IsLetter_def)
  have "validateRegistration T (jane\<lparr>GetUserName := [0xE9, 0xE9]\<rparr>) = None"
    by (simp add: validateRegistration_def jane_def jane_trim jane_phone jane_checks t l a
        del: isAlphanumeric.simps)
  with t show ?thesis by simp
qed

theorem username_length_counts_bytes_witness:
  "validateRegistration latin1_tables (jane\<lparr>GetUserName := [0xE9, 0xE9]\<rparr>) = None"
  using username_length_counts_bytes [of latin1_tables] by simp

lemma letters_phone: "normalizePhoneNumber (str ''254abcdefghi'') = str ''254abcdefghi''"
  by code_simp

lemma letters_phone_checks:
  "len (str ''254abcdefghi'') = 12" "HasPrefix (str ''254abcdefghi'') (str ''254'')"
  by (simp_all add: str_def len_def RuneLen_def HasPrefix_def)

text \<open>
  C3. The phone rule checks the byte length and the prefix "254" and nothing else. The
  phone "254abcdefghi" passes, and the registration persists it as it is, although the
  message of the rule speaks of 12 digits.
\<close>

theorem phone_digits_unchecked:
  "RegisterUser T steady \<lparr>documents = [], calls = []\<rparr>
     (jane\<lparr>GetPhoneNumber := str ''254abcdefghi''\<rparr>)
   = (Inr \<lparr>reg_UserName = str ''janed1'', reg_Message = str ''Registered successfully'',
           reg_Success = True\<rparr>,
      \<lparr>documents = [(jane_stored 0 0)\<lparr>PhoneNumber := str ''254abcdefghi''\<rparr>],
       calls = [FindOne_call (existingFilter T (jane\<lparr>GetPhoneNumber := str ''254abcdefghi''\<rparr>)),
                InsertOne_call ((jane_stored 0 0)\<lparr>PhoneNumber := str ''254abcdefghi''\<rparr>)]\<rparr>)"
proof -
  let ?req = "jane\<lparr>GetPhoneNumber := str ''254abcdefghi''\<rparr>"
  have v: "validateRegistration T ?req = None"
    by (simp add: validateRegistration_def jane_def jane_trim letters_phone letters_phone_checks
        jane_checks)
  have u: "newUser T steady ?req = (jane_stored 0 0)\<lparr>PhoneNumber := str ''254abcdefghi''\<rparr>"
    by (simp add: newUser_def jane_def jane_stored_def jane_trim jane_lower letters_phone
        steady_def)
  have "RegisterUser T steady \<lparr>documents = [], calls = []\<rparr> ?req
         = (Inr \<lparr>reg_UserName = UserName (newUser T steady ?req),
                 reg_Message = str ''Registered successfully'', reg_Success = True\<rparr>,
            \<lparr>documents = documents \<lparr>documents = [], calls = []\<rparr> @ concurrent steady
                 @ [newUser T steady ?req],
             calls = calls \<lparr>documents = [], calls = []\<rparr> @ [FindOne_call (existingFilter T ?req),
                                InsertOne_call (newUser T steady ?req)]\<rparr>)"
    by (rule RegisterUser_success [OF v]) (simp_all add: steady_def)
  then show ?thesis by (simp add: u) (simp add: steady_def jane_stored_def)
qed

theorem phone_digits_unchecked_witness:
  "PhoneNumber (last (documents (snd (RegisterUser latin1_tables steady
      \<lparr>documents = [], calls = []\<rparr> (jane\<lparr>GetPhoneNumber := str ''254abcdefghi''\<rparr>)))))
   = str ''254abcdefghi''"
  using phone_digits_unchecked [of latin1_tables] by simp

end
